theory Spec2Isabelle
  imports Complex_Main "HOL-Library.Signed_Division"
begin

section \<open>Adaptive Simpson integration (Simpson.hpp)\<close>

text \<open>
  The class templates of the library are generic in the scalar type \<open>Real\<close>. The
  embedding instantiates it with the ordered field \<^typ>\<open>real\<close>: every statement
  below is about the arithmetic the code is written in, not about the rounding of
  a particular floating-point format.

  \<open>Simpson\<close> holds the accuracy and the recursion budget.
\<close>

record Simpson =
  accuracy :: real
  maxRecursionDepth :: int

text \<open>
  \<open>Simpson::aux\<close>. The two recursive calls are made only when \<open>bottom > 0\<close>, with
  \<open>bottom - 1\<close>.
\<close>

function aux ::
  "(real \<Rightarrow> real) \<Rightarrow> real \<Rightarrow> real \<Rightarrow> real \<Rightarrow> real \<Rightarrow> real \<Rightarrow> real \<Rightarrow> real \<Rightarrow> int \<Rightarrow> real"
where
  "aux f a b eps S fa fb fc bottom =
     (let c = (a + b) / 2;
          h = b - a;
          d = (a + c) / 2;
          e = (c + b) / 2;
          fd = f d;
          fe = f e;
          Sleft = (h / 12) * (fa + 4 * fd + fc);
          Sright = (h / 12) * (fc + 4 * fe + fb);
          S2 = Sleft + Sright
      in if bottom \<le> 0 \<or> \<bar>S2 - S\<bar> \<le> 15 * eps
         then S2 + (S2 - S) / 15
         else aux f a c (eps / 2) Sleft fa fc fd (bottom - 1) +
              aux f c b (eps / 2) Sright fc fb fe (bottom - 1))"
  by pat_completeness auto
termination
  by (relation "measure (\<lambda>(f, a, b, eps, S, fa, fb, fc, bottom). nat bottom)") auto

declare aux.simps [simp del]

text \<open>\<open>Simpson::operator()\<close>.\<close>

definition integrate :: "Simpson \<Rightarrow> (real \<Rightarrow> real) \<Rightarrow> real \<Rightarrow> real \<Rightarrow> real" where
  "integrate s f a b =
     (let c = (a + b) / 2;
          h = b - a;
          fa = f a;
          fb = f b;
          fc = f c;
          S = (h / 6) * (fa + 4 * fc + fb)
      in aux f a b (accuracy s) S fa fb fc (maxRecursionDepth s))"

text \<open>
  The tree of calls of \<open>aux\<close>: a call that returns at once is a leaf carrying the
  value it returns, a call that bisects is a node over its two recursive calls.
  \<open>aux_calls\<close> follows the recursion of \<open>aux\<close> equation by equation and records the
  calls instead of adding their values.
\<close>

datatype calls = Accept real | Bisect calls calls

function aux_calls ::
  "(real \<Rightarrow> real) \<Rightarrow> real \<Rightarrow> real \<Rightarrow> real \<Rightarrow> real \<Rightarrow> real \<Rightarrow> real \<Rightarrow> real \<Rightarrow> int \<Rightarrow> calls"
where
  "aux_calls f a b eps S fa fb fc bottom =
     (let c = (a + b) / 2;
          h = b - a;
          d = (a + c) / 2;
          e = (c + b) / 2;
          fd = f d;
          fe = f e;
          Sleft = (h / 12) * (fa + 4 * fd + fc);
          Sright = (h / 12) * (fc + 4 * fe + fb);
          S2 = Sleft + Sright
      in if bottom \<le> 0 \<or> \<bar>S2 - S\<bar> \<le> 15 * eps
         then Accept (S2 + (S2 - S) / 15)
         else Bisect (aux_calls f a c (eps / 2) Sleft fa fc fd (bottom - 1))
                     (aux_calls f c b (eps / 2) Sright fc fb fe (bottom - 1)))"
  by pat_completeness auto
termination
  by (relation "measure (\<lambda>(f, a, b, eps, S, fa, fb, fc, bottom). nat bottom)") auto

declare aux_calls.simps [simp del]

definition integrate_calls :: "Simpson \<Rightarrow> (real \<Rightarrow> real) \<Rightarrow> real \<Rightarrow> real \<Rightarrow> calls" where
  "integrate_calls s f a b =
     (let c = (a + b) / 2;
          h = b - a;
          fa = f a;
          fb = f b;
          fc = f c;
          S = (h / 6) * (fa + 4 * fc + fb)
      in aux_calls f a b (accuracy s) S fa fb fc (maxRecursionDepth s))"

fun estimate :: "calls \<Rightarrow> real" where
  "estimate (Accept v) = v"
| "estimate (Bisect l r) = estimate l + estimate r"

fun depth :: "calls \<Rightarrow> nat" where
  "depth (Accept v) = 0"
| "depth (Bisect l r) = Suc (max (depth l) (depth r))"

fun leaves :: "calls \<Rightarrow> nat" where
  "leaves (Accept v) = 1"
| "leaves (Bisect l r) = leaves l + leaves r"

section \<open>Outcomes of a call\<close>

text \<open>
  A call of the library either returns a value, or leaves the normal control flow.
  \<open>OutOfRange\<close> is the exception \<open>std::out_of_range\<close> thrown by the checked access
  \<open>std::vector::at\<close>, \<open>BadAlloc\<close> the exception of \<open>new\<close> on a negative size.
  \<open>Undefined\<close> marks undefined behaviour of C++: an unchecked
  access outside a vector or an allocated block, \<open>front()\<close> or \<open>back()\<close> of an empty
  vector, an array of negative size. \<open>NonFinite\<close> marks a division by zero:
  IEEE arithmetic raises no exception there and continues with an infinity or a
  NaN, values that the field \<^typ>\<open>real\<close> does not have, so the embedding stops the
  computation instead of continuing with the value HOL gives to \<open>x / 0\<close>.
  A loop that may run forever returns an \<open>option\<close>: \<open>None\<close> is "does not return".
\<close>

datatype error = OutOfRange | BadAlloc | Undefined | NonFinite

definition rdiv :: "real \<Rightarrow> real \<Rightarrow> error + real" where
  "rdiv x y = (if y = 0 then Inl NonFinite else Inr (x / y))"

text \<open>\<open>std::vector<Real>::at\<close>; an \<open>int\<close> index below zero converts to a huge unsigned one.\<close>

definition vec_at :: "'a list \<Rightarrow> int \<Rightarrow> error + 'a" where
  "vec_at xs i = (if 0 \<le> i \<and> i < int (length xs) then Inr (xs ! nat i) else Inl OutOfRange)"

text \<open>\<open>std::vector<Point>::operator[]\<close>, unchecked.\<close>

definition subscript :: "'a list \<Rightarrow> int \<Rightarrow> error + 'a" where
  "subscript xs i = (if 0 \<le> i \<and> i < int (length xs) then Inr (xs ! nat i) else Inl Undefined)"

text \<open>
  \<open>for (i = lo; i <= hi; i++) body\<close> over a state \<open>s\<close>; the loop stops at the first
  iteration that does not return normally.
\<close>

function for_loop :: "int \<Rightarrow> int \<Rightarrow> (int \<Rightarrow> 's \<Rightarrow> error + 's) \<Rightarrow> 's \<Rightarrow> error + 's" where
  "for_loop i hi body s =
     (if i \<le> hi
      then (case body i s of Inl e \<Rightarrow> Inl e | Inr s' \<Rightarrow> for_loop (i + 1) hi body s')
      else Inr s)"
  by pat_completeness auto
termination
  by (relation "measure (\<lambda>(i, hi, body, s). nat (hi + 1 - i))") auto

declare for_loop.simps [simp del]

section \<open>Vectors (Vector.hpp)\<close>

text \<open>
  \<open>geom::Vector<N, Real>\<close>: the coordinates \<open>_v[N]\<close> and the weight \<open>_w\<close>. The template
  parameter \<open>N\<close> is an argument of the operations, which loop over \<open>i < N\<close> as the
  source does; a vector of the C++ type always has \<open>N\<close> coordinates.
\<close>

record Vector =
  coords :: "real list"
  weight :: real

type_synonym Point = Vector

definition wf_Vector :: "nat \<Rightarrow> Vector \<Rightarrow> bool" where
  "wf_Vector N a = (length (coords a) = N)"

text \<open>The origin constructor \<open>Vector()\<close>.\<close>

definition origin :: "nat \<Rightarrow> Vector" where
  "origin N = \<lparr>coords = map (\<lambda>i. 0) [0..<N], weight = 1\<rparr>"

text \<open>\<open>operator+\<close>, \<open>operator+=\<close>, \<open>operator*(Real)\<close>, \<open>operator/(Real)\<close>.\<close>

definition vec_add :: "nat \<Rightarrow> Vector \<Rightarrow> Vector \<Rightarrow> Vector" where
  "vec_add N a b =
     (let res = origin N
      in res\<lparr>coords := map (\<lambda>i. coords a ! i + coords b ! i) [0..<N]\<rparr>)"

definition vec_add_assign :: "nat \<Rightarrow> Vector \<Rightarrow> Vector \<Rightarrow> Vector" where
  "vec_add_assign N a b = a\<lparr>coords := map (\<lambda>i. coords a ! i + coords b ! i) [0..<N]\<rparr>"

definition vec_scale :: "nat \<Rightarrow> Vector \<Rightarrow> real \<Rightarrow> Vector" where
  "vec_scale N a r =
     (let vect = origin N
      in vect\<lparr>coords := map (\<lambda>i. coords a ! i * r) [0..<N]\<rparr>)"

definition vec_div :: "nat \<Rightarrow> Vector \<Rightarrow> real \<Rightarrow> error + Vector" where
  "vec_div N a r =
     (if r = 0 then Inl NonFinite
      else let res = origin N
           in Inr (res\<lparr>coords := map (\<lambda>i. coords a ! i / r) [0..<N]\<rparr>))"

section \<open>Splines (Spline.hpp)\<close>

text \<open>
  \<open>curve::Spline<N, Real>\<close>, with the template parameter \<open>N\<close> as the field \<open>dimension\<close>.
\<close>

record Spline =
  dimension :: nat
  controlPoints :: "Point list"
  knotVector :: "real list"
  degree :: int
  uniform :: bool
  clamped :: bool

text \<open>
  \<open>for ( ; i < bound; i++ ) _knotVector.push_back( g i )\<close>, returning the counter with
  the vector since the next loop continues from it.
\<close>

function push_back_loop ::
  "(int \<Rightarrow> real) \<Rightarrow> int \<Rightarrow> int \<Rightarrow> real list \<Rightarrow> int \<times> real list"
where
  "push_back_loop g bound i kv =
     (if i < bound then push_back_loop g bound (i + 1) (kv @ [g i]) else (i, kv))"
  by pat_completeness auto
termination
  by (relation "measure (\<lambda>(g, bound, i, kv). nat (bound - i))") auto

declare push_back_loop.simps [simp del]

text \<open>
  \<open>Spline::computeUniformKnotVector\<close>. The quotients are taken in \<^typ>\<open>real\<close>: in the
  clamped branch the divisor \<open>n\<close> is at least 2 whenever the middle loop runs; in the
  other branch the divisor \<open>numKnots - 1\<close> is zero only for a spline with one knot,
  whose knot \<open>0 / 0\<close> is a NaN in the source and 0 here. No statement below is
  about that spline.
\<close>

definition computeUniformKnotVector :: "Spline \<Rightarrow> Spline" where
  "computeUniformKnotVector s =
     (if \<not> uniform s then s
      else
        let numPoints = int (length (controlPoints s));
            numKnots = numPoints + degree s + 1;
            n = numPoints - degree s
        in if clamped s
           then
             (case push_back_loop (\<lambda>i. 0) (degree s + 1) 0 [] of (i, kv) \<Rightarrow>
              case push_back_loop (\<lambda>i. of_int (i - degree s) / of_int n) numPoints i kv of (i, kv) \<Rightarrow>
              case push_back_loop (\<lambda>i. 1) numKnots i kv of (i, kv) \<Rightarrow>
                s\<lparr>knotVector := kv\<rparr>)
           else
             (case push_back_loop (\<lambda>i. of_int i / of_int (numKnots - 1)) numKnots 0 [] of (i, kv) \<Rightarrow>
                s\<lparr>knotVector := kv\<rparr>))"

text \<open>The three constructors (the copy constructor is the identity).\<close>

definition Spline_degree :: "nat \<Rightarrow> int \<Rightarrow> Spline" where
  "Spline_degree N deg =
     computeUniformKnotVector
       \<lparr>dimension = N, controlPoints = [], knotVector = [], degree = deg,
        uniform = True, clamped = True\<rparr>"

definition Spline_points :: "nat \<Rightarrow> Point list \<Rightarrow> int \<Rightarrow> Spline" where
  "Spline_points N points deg =
     computeUniformKnotVector
       \<lparr>dimension = N, controlPoints = points, knotVector = [], degree = deg,
        uniform = True, clamped = True\<rparr>"

definition Spline_knots :: "nat \<Rightarrow> Point list \<Rightarrow> real list \<Rightarrow> int \<Rightarrow> Spline" where
  "Spline_knots N points knots deg =
     computeUniformKnotVector
       \<lparr>dimension = N, controlPoints = points, knotVector = knots, degree = deg,
        uniform = False, clamped = True\<rparr>"


definition setUniform :: "bool \<Rightarrow> Spline \<Rightarrow> Spline" where
  "setUniform b s = s\<lparr>uniform := b\<rparr>"

definition setClamped :: "bool \<Rightarrow> Spline \<Rightarrow> Spline" where
  "setClamped b s = s\<lparr>clamped := b\<rparr>"

text \<open>
  The structural mutators; an iterator is the index it points at, and an iterator
  outside the vector is undefined behaviour.
\<close>

definition pushControlPoint :: "Point \<Rightarrow> Spline \<Rightarrow> Spline" where
  "pushControlPoint point s =
     computeUniformKnotVector (s\<lparr>controlPoints := controlPoints s @ [point]\<rparr>)"

definition insertControlPoint :: "nat \<Rightarrow> Point \<Rightarrow> Spline \<Rightarrow> error + Spline" where
  "insertControlPoint pos point s =
     (if pos \<le> length (controlPoints s)
      then Inr (computeUniformKnotVector
             (s\<lparr>controlPoints := take pos (controlPoints s) @ point # drop pos (controlPoints s)\<rparr>))
      else Inl Undefined)"

definition eraseControlPoint :: "nat \<Rightarrow> Spline \<Rightarrow> error + Spline" where
  "eraseControlPoint pos s =
     (if pos < length (controlPoints s)
      then Inr (computeUniformKnotVector
             (s\<lparr>controlPoints := take pos (controlPoints s) @ drop (Suc pos) (controlPoints s)\<rparr>))
      else Inl Undefined)"

section \<open>NURBS evaluation (NURBS.hpp)\<close>

text \<open>
  \<open>NURBS::findSpan\<close>. The \<open>while\<close> loop of the binary search can run forever on a
  knot vector that is not sorted, so it is a partial function. The condition
  \<open>u < U.at(mid) || u >= U.at(mid + 1)\<close> evaluates its second access only when the
  first comparison fails. \<open>sdiv\<close> is the division of C++ on \<open>int\<close>, which truncates;
  the indices of a vector in memory stay far from the bounds of \<open>int\<close>, so \<open>low + high\<close>
  is taken in \<^typ>\<open>int\<close>.
\<close>

partial_function (option) findSpan_while ::
  "real \<Rightarrow> real list \<Rightarrow> int \<Rightarrow> int \<Rightarrow> int \<Rightarrow> (error + int) option"
where
  "findSpan_while u U low high mid =
     (case vec_at U mid of
        Inl e \<Rightarrow> Some (Inl e)
      | Inr a \<Rightarrow>
          if u < a then findSpan_while u U low mid ((low + mid) sdiv 2)
          else (case vec_at U (mid + 1) of
                  Inl e \<Rightarrow> Some (Inl e)
                | Inr b \<Rightarrow>
                    if u \<ge> b then findSpan_while u U mid high ((mid + high) sdiv 2)
                    else Some (Inr mid)))"

declare findSpan_while.simps [code]

definition findSpan :: "int \<Rightarrow> int \<Rightarrow> real \<Rightarrow> real list \<Rightarrow> (error + int) option" where
  "findSpan n p u U =
     (case vec_at U p of
        Inl e \<Rightarrow> Some (Inl e)
      | Inr a \<Rightarrow>
          if u \<le> a then Some (Inr p)
          else (case vec_at U (n + 1) of
                  Inl e \<Rightarrow> Some (Inl e)
                | Inr b \<Rightarrow>
                    if u \<ge> b then Some (Inr n)
                    else findSpan_while u U p (n + 1) ((p + (n + 1)) sdiv 2)))"

text \<open>
  \<open>NURBS::basisFuns\<close>. The local arrays \<open>left\<close>, \<open>right\<close> and the caller's array \<open>N_\<close>
  (here \<open>N'\<close>) are maps from the index to the value; every index the loops use
  lies in \<open>0 .. p\<close>. \<open>basisFuns_inner\<close> is the body of the loop over \<open>r\<close>, on the state
  \<open>(N', saved)\<close>; \<open>basisFuns_outer\<close> is the body of the loop over \<open>j\<close>, on the state
  \<open>(left, right, N')\<close>.
\<close>

definition basisFuns_inner ::
  "int \<Rightarrow> (int \<Rightarrow> real) \<Rightarrow> (int \<Rightarrow> real) \<Rightarrow> int \<Rightarrow> (int \<Rightarrow> real) \<times> real \<Rightarrow>
   error + (int \<Rightarrow> real) \<times> real"
where
  "basisFuns_inner j left right r =
     (\<lambda>(N', saved).
        case rdiv (N' r) (right (r + 1) + left (j - r)) of
          Inl e \<Rightarrow> Inl e
        | Inr temp \<Rightarrow> Inr (N'(r := saved + right (r + 1) * temp), left (j - r) * temp))"

definition basisFuns_outer ::
  "int \<Rightarrow> real \<Rightarrow> real list \<Rightarrow> int \<Rightarrow> (int \<Rightarrow> real) \<times> (int \<Rightarrow> real) \<times> (int \<Rightarrow> real) \<Rightarrow>
   error + (int \<Rightarrow> real) \<times> (int \<Rightarrow> real) \<times> (int \<Rightarrow> real)"
where
  "basisFuns_outer i u U j =
     (\<lambda>(left, right, N').
        case vec_at U (i + 1 - j) of Inl e \<Rightarrow> Inl e | Inr a \<Rightarrow>
        case vec_at U (i + j) of Inl e \<Rightarrow> Inl e | Inr b \<Rightarrow>
          let left = left(j := u - a);
              right = right(j := b - u);
              saved = 0
          in case for_loop 0 (j - 1) (basisFuns_inner j left right) (N', saved) of
               Inl e \<Rightarrow> Inl e
             | Inr (N', saved) \<Rightarrow> Inr (left, right, N'(j := saved)))"

definition basisFuns ::
  "int \<Rightarrow> real \<Rightarrow> int \<Rightarrow> real list \<Rightarrow> (int \<Rightarrow> real) \<Rightarrow> error + (int \<Rightarrow> real)"
where
  "basisFuns i u p U N' =
     (case for_loop 1 p (basisFuns_outer i u U) (\<lambda>_. 0, \<lambda>_. 0, N'(0 := 1)) of
        Inl e \<Rightarrow> Inl e
      | Inr (left, right, N') \<Rightarrow> Inr N')"

text \<open>
  \<open>NURBS::curvePoint\<close>. \<open>Cw\<close> and \<open>Pi\<close> start as the origin; \<open>Pw[ span-p+j ]\<close> is the
  unchecked access (\<open>spn\<close> is the source's \<open>span\<close>). \<open>curvePoint_add\<close> is the body
  of the loop over \<open>j\<close>: \<open>Cw += Pi * Pi.weight() * N_[ j ]\<close>. The first declaration
  is the array \<open>N_[ p+1 ]\<close>, whose size must not be negative.
\<close>

definition curvePoint_add ::
  "nat \<Rightarrow> int \<Rightarrow> int \<Rightarrow> Point list \<Rightarrow> (int \<Rightarrow> real) \<Rightarrow> int \<Rightarrow> Point \<Rightarrow> error + Point"
where
  "curvePoint_add N spn p Pw N' j Cw =
     (case subscript Pw (spn - p + j) of
        Inl e \<Rightarrow> Inl e
      | Inr Pi \<Rightarrow> Inr (vec_add_assign N Cw (vec_scale N (vec_scale N Pi (weight Pi)) (N' j))))"

definition curvePoint ::
  "nat \<Rightarrow> int \<Rightarrow> int \<Rightarrow> real list \<Rightarrow> Point list \<Rightarrow> real \<Rightarrow> (error + Point) option"
where
  "curvePoint N n p U Pw u =
     (if p + 1 < 0 then Some (Inl Undefined)
      else
        case findSpan n p u U of
          None \<Rightarrow> None
        | Some (Inl e) \<Rightarrow> Some (Inl e)
        | Some (Inr spn) \<Rightarrow>
            Some (case basisFuns spn u p U (\<lambda>_. 0) of
                    Inl e \<Rightarrow> Inl e
                  | Inr N' \<Rightarrow>
                      (case for_loop 0 p (curvePoint_add N spn p Pw N') (origin N) of
                         Inl e \<Rightarrow> Inl e
                       | Inr Cw \<Rightarrow> vec_div N Cw (weight Cw))))"

text \<open>
  \<open>NURBS::adjustParameter\<close>. Each of the two \<open>while\<close> loops of the periodic branch
  can run forever (when \<open>total\<close> is zero), so each is a partial function
  (\<open>totl\<close> is the source's \<open>total\<close>).
\<close>

partial_function (option) while_below :: "real \<Rightarrow> real \<Rightarrow> real \<Rightarrow> real option" where
  "while_below minKnot totl u =
     (if u < minKnot then while_below minKnot totl (u + totl) else Some u)"

partial_function (option) while_not_below :: "real \<Rightarrow> real \<Rightarrow> real \<Rightarrow> real option" where
  "while_not_below maxKnot totl u =
     (if u \<ge> maxKnot then while_not_below maxKnot totl (u - totl) else Some u)"

declare while_below.simps [code]
declare while_not_below.simps [code]

definition adjustParameter :: "Spline \<Rightarrow> real \<Rightarrow> (error + real) option" where
  "adjustParameter s u =
     (if knotVector s = [] then Some (Inl Undefined)
      else
        let minKnot = hd (knotVector s);
            maxKnot = last (knotVector s)
        in if clamped s
           then Some (Inr (min (max u minKnot) maxKnot))
           else
             let totl = \<bar>maxKnot - minKnot\<bar>
             in (case while_below minKnot totl u of
                   None \<Rightarrow> None
                 | Some u \<Rightarrow>
                     (case while_not_below maxKnot totl u of
                        None \<Rightarrow> None
                      | Some u \<Rightarrow> Some (Inr u))))"

text \<open>
  \<open>NURBS::operator()\<close>, the position \<open>C(t)\<close>. \<open>n\<close> is \<open>controlPoints().size() - 1\<close>
  converted to \<open>int\<close>: \<open>-1\<close> for a curve without control points.
\<close>

definition position :: "Spline \<Rightarrow> real \<Rightarrow> (error + Point) option" where
  "position s t =
     (let p = degree s;
          n = int (length (controlPoints s)) - 1
      in case adjustParameter s t of
           None \<Rightarrow> None
         | Some (Inl e) \<Rightarrow> Some (Inl e)
         | Some (Inr u) \<Rightarrow> curvePoint (dimension s) n p (knotVector s) (controlPoints s) u)"

text \<open>
  \<open>NURBS::Matrix\<close>: the block \<open>data\<close> of \<open>m * n * sizeof( Real )\<close> cells, as a map from
  the cell index to the value, with the number of cells allocated. \<open>operator[]\<close>
  returns the address of cell \<open>rows * i\<close>, so \<open>M[ i ][ j ]\<close> is the cell
  \<open>rows * i + j\<close>: rows of the matrix share cells whenever \<open>rows < cols\<close>. An access
  outside the block is undefined behaviour; a negative size makes \<open>new\<close> throw.
  \<open>sizeof_Real\<close> is the size of \<open>float\<close>, the default of the template parameter.
\<close>

record Matrix =
  rows :: int
  cols :: int
  allocated :: int
  data :: "int \<Rightarrow> real"

definition sizeof_Real :: int where
  "sizeof_Real = 4"

definition Matrix_new :: "int \<Rightarrow> int \<Rightarrow> error + Matrix" where
  "Matrix_new m n =
     (if m * n < 0 then Inl BadAlloc
      else Inr \<lparr>rows = m, cols = n, allocated = m * n * sizeof_Real, data = (\<lambda>_. 0)\<rparr>)"

definition matrix_read :: "Matrix \<Rightarrow> int \<Rightarrow> int \<Rightarrow> error + real" where
  "matrix_read M i j =
     (let c = rows M * i + j
      in if 0 \<le> c \<and> c < allocated M then Inr (data M c) else Inl Undefined)"

definition matrix_write :: "Matrix \<Rightarrow> int \<Rightarrow> int \<Rightarrow> real \<Rightarrow> error + Matrix" where
  "matrix_write M i j x =
     (let c = rows M * i + j
      in if 0 \<le> c \<and> c < allocated M then Inr (M\<lparr>data := (data M)(c := x)\<rparr>)
         else Inl Undefined)"

text \<open>
  \<open>NURBS::dersBasisFuns\<close>, in the four parts of the source. The local arrays
  \<open>ndu[ p+1 ][ p+1 ]\<close> and \<open>a[ 2 ][ p+1 ]\<close> are maps from the pair of indices to the
  value. First part: the basis functions and the knot differences.
\<close>

definition dersBasisFuns_ndu ::
  "int \<Rightarrow> real \<Rightarrow> int \<Rightarrow> real list \<Rightarrow> error + (int \<times> int \<Rightarrow> real)"
where
  "dersBasisFuns_ndu i u p U =
     (case
        for_loop 1 p
          (\<lambda>j (left, right, ndu).
             case vec_at U (i + 1 - j) of Inl e \<Rightarrow> Inl e | Inr a \<Rightarrow>
             case vec_at U (i + j) of Inl e \<Rightarrow> Inl e | Inr b \<Rightarrow>
               let left = left(j := u - a);
                   right = right(j := b - u);
                   saved = 0
               in case
                    for_loop 0 (j - 1)
                      (\<lambda>r (ndu, saved).
                         let ndu = ndu((j, r) := right (r + 1) + left (j - r))
                         in case rdiv (ndu (r, j - 1)) (ndu (j, r)) of
                              Inl e \<Rightarrow> Inl e
                            | Inr temp \<Rightarrow>
                                Inr (ndu((r, j) := saved + right (r + 1) * temp),
                                     left (j - r) * temp))
                      (ndu, saved)
                  of Inl e \<Rightarrow> Inl e
                   | Inr (ndu, saved) \<Rightarrow> Inr (left, right, ndu((j, j) := saved)))
          (\<lambda>_. 0, \<lambda>_. 0, (\<lambda>_. 0)((0, 0) := 1))
      of Inl e \<Rightarrow> Inl e
       | Inr (left, right, ndu) \<Rightarrow> Inr ndu)"

text \<open>Second part: \<open>ders[ 0 ][ j ] = ndu[ j ][ p ]\<close>.\<close>

definition dersBasisFuns_load :: "int \<Rightarrow> (int \<times> int \<Rightarrow> real) \<Rightarrow> Matrix \<Rightarrow> error + Matrix" where
  "dersBasisFuns_load p ndu ders =
     for_loop 0 p (\<lambda>j ders. matrix_write ders 0 j (ndu (j, p))) ders"

text \<open>
  Third part: the derivatives. The state of the loop over \<open>k\<close> is the array \<open>a\<close>, the
  two row numbers \<open>s1\<close>, \<open>s2\<close> and the matrix; \<open>a\<close> outlives the iterations over \<open>r\<close>.
\<close>

definition dersBasisFuns_ders ::
  "int \<Rightarrow> int \<Rightarrow> (int \<times> int \<Rightarrow> real) \<Rightarrow> Matrix \<Rightarrow> error + Matrix"
where
  "dersBasisFuns_ders p n ndu ders =
     (case
        for_loop 0 p
          (\<lambda>r (a, ders).
             let s1 = (0 :: int);
                 s2 = (1 :: int);
                 a = a((0, 0) := 1)
             in case
                  for_loop 1 n
                    (\<lambda>k (a, s1, s2, ders).
                       let d = 0;
                           rk = r - k;
                           pk = p - k
                       in case
                            (if r \<ge> k
                             then (case rdiv (a (s1, 0)) (ndu (pk + 1, rk)) of
                                     Inl e \<Rightarrow> Inl e
                                   | Inr q \<Rightarrow>
                                       let a = a((s2, 0) := q)
                                       in Inr (a, a (s2, 0) * ndu (rk, pk)))
                             else Inr (a, d))
                          of Inl e \<Rightarrow> Inl e | Inr (a, d) \<Rightarrow>
                            let j1 = (if rk \<ge> - 1 then 1 else - rk);
                                j2 = (if r - 1 \<le> pk then k - 1 else p - r)
                            in case
                                 for_loop j1 j2
                                   (\<lambda>j (a, d).
                                      case rdiv (a (s1, j) - a (s1, j - 1)) (ndu (pk + 1, rk + j)) of
                                        Inl e \<Rightarrow> Inl e
                                      | Inr q \<Rightarrow>
                                          let a = a((s2, j) := q)
                                          in Inr (a, d + a (s2, j) * ndu (rk + j, pk)))
                                   (a, d)
                               of Inl e \<Rightarrow> Inl e | Inr (a, d) \<Rightarrow>
                                 (case
                                    (if r \<le> pk
                                     then (case rdiv (- a (s1, k - 1)) (ndu (pk + 1, r)) of
                                             Inl e \<Rightarrow> Inl e
                                           | Inr q \<Rightarrow>
                                               let a = a((s2, k) := q)
                                               in Inr (a, d + a (s2, k) * ndu (r, pk)))
                                     else Inr (a, d))
                                  of Inl e \<Rightarrow> Inl e | Inr (a, d) \<Rightarrow>
                                    (case matrix_write ders k r d of
                                       Inl e \<Rightarrow> Inl e
                                     | Inr ders \<Rightarrow> Inr (a, s2, s1, ders))))
                    (a, s1, s2, ders)
                of Inl e \<Rightarrow> Inl e
                 | Inr (a, s1, s2, ders) \<Rightarrow> Inr (a, ders))
          (\<lambda>_. 0, ders)
      of Inl e \<Rightarrow> Inl e
       | Inr (a, ders) \<Rightarrow> Inr ders)"

text \<open>Fourth part: the factors \<open>p\<close>, \<open>p (p - 1)\<close>, ...\<close>

definition dersBasisFuns_factors :: "int \<Rightarrow> int \<Rightarrow> Matrix \<Rightarrow> error + Matrix" where
  "dersBasisFuns_factors p n ders =
     (case
        for_loop 1 n
          (\<lambda>k (r, ders).
             case
               for_loop 0 p
                 (\<lambda>j ders.
                    case matrix_read ders k j of
                      Inl e \<Rightarrow> Inl e
                    | Inr x \<Rightarrow> matrix_write ders k j (x * of_int r))
                 ders
             of Inl e \<Rightarrow> Inl e
              | Inr ders \<Rightarrow> Inr (r * (p - k), ders))
          (p, ders)
      of Inl e \<Rightarrow> Inl e
       | Inr (r, ders) \<Rightarrow> Inr ders)"

definition dersBasisFuns ::
  "int \<Rightarrow> real \<Rightarrow> int \<Rightarrow> int \<Rightarrow> real list \<Rightarrow> Matrix \<Rightarrow> error + Matrix"
where
  "dersBasisFuns i u p n U ders =
     (case dersBasisFuns_ndu i u p U of Inl e \<Rightarrow> Inl e | Inr ndu \<Rightarrow>
      case dersBasisFuns_load p ndu ders of Inl e \<Rightarrow> Inl e | Inr ders \<Rightarrow>
      case dersBasisFuns_ders p n ndu ders of Inl e \<Rightarrow> Inl e | Inr ders \<Rightarrow>
        dersBasisFuns_factors p n ders)"

text \<open>
  \<open>NURBS::curveDerivs\<close>. The matrix has \<open>d + 1\<close> rows and \<open>p + 1\<close> columns; \<open>CK\<close> is the
  caller's array of \<open>d + 1\<close> points.
\<close>

definition curveDerivs ::
  "nat \<Rightarrow> int \<Rightarrow> int \<Rightarrow> real list \<Rightarrow> Point list \<Rightarrow> real \<Rightarrow> int \<Rightarrow> (int \<Rightarrow> Point) \<Rightarrow>
   (error + (int \<Rightarrow> Point)) option"
where
  "curveDerivs N n p U P u d CK =
     (case Matrix_new (d + 1) (p + 1) of
        Inl e \<Rightarrow> Some (Inl e)
      | Inr nders \<Rightarrow>
          let du = min d p
          in case findSpan n p u U of
               None \<Rightarrow> None
             | Some (Inl e) \<Rightarrow> Some (Inl e)
             | Some (Inr spn) \<Rightarrow>
                 Some (case dersBasisFuns spn u p du U nders of
                         Inl e \<Rightarrow> Inl e
                       | Inr nders \<Rightarrow>
                           for_loop 0 du
                             (\<lambda>k CK.
                                for_loop 0 p
                                  (\<lambda>j CK.
                                     case subscript P (spn - p + j) of
                                       Inl e \<Rightarrow> Inl e
                                     | Inr Pj \<Rightarrow>
                                         (case matrix_read nders k j of
                                            Inl e \<Rightarrow> Inl e
                                          | Inr x \<Rightarrow>
                                              Inr (CK(k := vec_add_assign N (CK k)
                                                             (vec_scale N Pj x)))))
                                  CK)
                             CK))"

text \<open>
  \<open>NURBS::derivative\<close>, the derivative \<open>C(d)(t)\<close>. The array \<open>CK[ d+1 ]\<close> holds origins.
\<close>

definition derivative :: "Spline \<Rightarrow> real \<Rightarrow> int \<Rightarrow> (error + Point) option" where
  "derivative s t d =
     (if d < 0 then Some (Inl Undefined)
      else
        let CK = (\<lambda>_. origin (dimension s));
            p = degree s;
            n = int (length (controlPoints s)) - 1
        in case adjustParameter s t of
             None \<Rightarrow> None
           | Some (Inl e) \<Rightarrow> Some (Inl e)
           | Some (Inr u) \<Rightarrow>
               (case curveDerivs (dimension s) n p (knotVector s) (controlPoints s) u d CK of
                  None \<Rightarrow> None
                | Some (Inl e) \<Rightarrow> Some (Inl e)
                | Some (Inr CK) \<Rightarrow> Some (Inr (CK d))))"

section \<open>The position in the words of the specification\<close>

text \<open>
  For the comparison with \<open>position\<close> only. The specification describes the
  position as: "form the homogeneous sum \<open>\<Sigma> Pi wi Ni\<close> over the \<open>p+1\<close> influencing
  control points, divide by \<open>\<Sigma> wi Ni\<close> to recover the Euclidean point". The
  parameter adjustment, the span and the basis functions are those of the code.
\<close>

definition rational_point :: "nat \<Rightarrow> int \<Rightarrow> int \<Rightarrow> (int \<Rightarrow> real) \<Rightarrow> Point list \<Rightarrow> Point" where
  "rational_point N p spn N' Pw =
     \<lparr>coords =
        map (\<lambda>i. (\<Sum>j\<leftarrow>[0..p]. coords (Pw ! nat (spn - p + j)) ! i *
                               weight (Pw ! nat (spn - p + j)) * N' j) /
                  (\<Sum>j\<leftarrow>[0..p]. weight (Pw ! nat (spn - p + j)) * N' j))
            [0..<N],
      weight = 1\<rparr>"

definition position_rational :: "Spline \<Rightarrow> real \<Rightarrow> (error + Point) option" where
  "position_rational s t =
     (let p = degree s;
          n = int (length (controlPoints s)) - 1
      in case adjustParameter s t of
           None \<Rightarrow> None
         | Some (Inl e) \<Rightarrow> Some (Inl e)
         | Some (Inr u) \<Rightarrow>
             (case findSpan n p u (knotVector s) of
                None \<Rightarrow> None
              | Some (Inl e) \<Rightarrow> Some (Inl e)
              | Some (Inr spn) \<Rightarrow>
                  Some (case basisFuns spn u p (knotVector s) (\<lambda>_. 0) of
                          Inl e \<Rightarrow> Inl e
                        | Inr N' \<Rightarrow>
                            Inr (rational_point (dimension s) p spn N' (controlPoints s)))))"

section \<open>Configurations\<close>

text \<open>
  The configurations that the claims call valid for evaluation: as many knots as
  control points plus the degree plus one, knots that do not decrease, a degree
  that is not negative, at least \<open>degree + 1\<close> control points, and control points of
  the curve's dimension whose weights are not zero.
\<close>

definition valid_configuration :: "Spline \<Rightarrow> bool" where
  "valid_configuration s =
     (int (length (knotVector s)) = int (length (controlPoints s)) + degree s + 1 \<and>
      sorted (knotVector s) \<and>
      0 \<le> degree s \<and>
      degree s + 1 \<le> int (length (controlPoints s)) \<and>
      (\<forall>P \<in> set (controlPoints s). weight P \<noteq> 0 \<and> wf_Vector (dimension s) P))"

text \<open>
  A clamped knot vector: the first \<open>degree + 1\<close> knots are the first knot, the last
  \<open>degree + 1\<close> knots are the last knot, and neither end has a greater multiplicity.
\<close>

definition clamped_knots :: "Spline \<Rightarrow> bool" where
  "clamped_knots s =
     (let U = knotVector s;
          p = degree s;
          n = int (length (controlPoints s)) - 1
      in (\<forall>i \<in> {0..p}. U ! nat i = hd U) \<and>
         (\<forall>i \<in> {n + 1..n + p + 1}. U ! nat i = last U) \<and>
         hd U < U ! nat (p + 1) \<and>
         U ! nat n < last U)"

text \<open>
  The knot number \<open>i\<close> that \<open>computeUniformKnotVector\<close> generates on a clamped uniform
  spline of degree \<open>d\<close> with \<open>np\<close> control points, in closed form.
\<close>

definition clamped_knot :: "int \<Rightarrow> int \<Rightarrow> int \<Rightarrow> real" where
  "clamped_knot d np i =
     (if i \<le> d then 0 else if i < np then of_int (i - d) / of_int (np - d) else 1)"

section \<open>Curves used as examples\<close>

text \<open>\<open>Vector3( x, y, z )\<close> and \<open>Vector2( x, y, w )\<close>.\<close>

definition Vector3 :: "real \<Rightarrow> real \<Rightarrow> real \<Rightarrow> Point" where
  "Vector3 x y z = \<lparr>coords = [x, y, z], weight = 1\<rparr>"

definition Vector2 :: "real \<Rightarrow> real \<Rightarrow> real \<Rightarrow> Point" where
  "Vector2 x y w = \<lparr>coords = [x, y], weight = w\<rparr>"

text \<open>The curve that \<open>main.cpp\<close> builds: degree 3, four control points pushed in turn.\<close>

definition demo_curve :: Spline where
  "demo_curve =
     pushControlPoint (Vector3 0 1 0)
       (pushControlPoint (Vector3 1 1 0)
          (pushControlPoint (Vector3 1 0 0)
             (pushControlPoint (Vector3 0 0 0) (Spline_degree 3 3))))"

text \<open>A cubic with unit weights whose first control point is not the origin.\<close>

definition turn_curve :: Spline where
  "turn_curve =
     Spline_points 3 [Vector3 1 0 0, Vector3 1 1 0, Vector3 0 1 0, Vector3 0 0 0] 3"

text \<open>
  On the open interval between its end knots the cubic is a polynomial curve:
  \<open>turn_x\<close> and \<open>turn_y\<close> are its first two coordinates (the third is 0), \<open>turn_dx\<close>,
  \<open>turn_dy\<close> their derivatives and \<open>turn_ddx\<close>, \<open>turn_ddy\<close> their second derivatives.
  That these are the coordinates of \<open>position\<close> and their derivatives is proved
  below, not assumed.
\<close>

definition turn_x :: "real \<Rightarrow> real" where
  "turn_x t = (1 - t) ^ 3 + 3 * t * (1 - t) ^ 2"

definition turn_y :: "real \<Rightarrow> real" where
  "turn_y t = 3 * t * (1 - t) ^ 2 + 3 * t ^ 2 * (1 - t)"

definition turn_dx :: "real \<Rightarrow> real" where
  "turn_dx t = 6 * t ^ 2 - 6 * t"

definition turn_dy :: "real \<Rightarrow> real" where
  "turn_dy t = 3 - 6 * t"

definition turn_ddx :: "real \<Rightarrow> real" where
  "turn_ddx t = 12 * t - 6"

definition turn_ddy :: "real \<Rightarrow> real" where
  "turn_ddy t = - 6"


text \<open>The knots of a clamped uniform cubic with seven control points.\<close>

definition seven_point_knots :: "real list" where
  "seven_point_knots = [0, 0, 0, 0, 1 / 4, 1 / 2, 3 / 4, 1, 1, 1, 1]"

text \<open>The control points of \<open>main.cpp\<close> with knots of the caller, from 0 to 2.\<close>

definition custom_curve :: Spline where
  "custom_curve =
     Spline_knots 3 [Vector3 0 0 0, Vector3 1 0 0, Vector3 1 1 0, Vector3 0 1 0]
       [0, 0, 0, 0, 2, 2, 2, 2] 3"

text \<open>A rational segment: degree 1, the first control point with weight 2.\<close>

definition rational_segment :: Spline where
  "rational_segment = Spline_points 2 [Vector2 1 0 2, Vector2 0 1 1] 1"

section \<open>Properties of the integrator\<close>

lemma aux_is_estimate:
  "aux f a b eps S fa fb fc bottom = estimate (aux_calls f a b eps S fa fb fc bottom)"
proof (induction f a b eps S fa fb fc bottom rule: aux.induct)
  case (1 f a b eps S fa fb fc bottom)
  let ?accept = "bottom \<le> 0 \<or>
    \<bar>(b - a) / 12 * (fa + 4 * f ((a + (a + b) / 2) / 2) + fc) +
     (b - a) / 12 * (fc + 4 * f (((a + b) / 2 + b) / 2) + fb) - S\<bar> \<le> 15 * eps"
  note IH = "1.IH" [OF refl refl refl refl refl refl refl refl refl]
  show ?case
  proof (cases ?accept)
    case True
    then show ?thesis
      by (subst aux.simps, subst aux_calls.simps) (simp add: Let_def)
  next
    case False
    show ?thesis
      using IH(1) [OF False] IH(2) [OF False] False
      by (subst aux.simps, subst aux_calls.simps) (simp add: Let_def)
  qed
qed

lemma leaves_le_depth: "leaves t \<le> 2 ^ depth t"
proof (induction t)
  case (Accept v)
  show ?case by simp
next
  case (Bisect l r)
  have "leaves l \<le> 2 ^ max (depth l) (depth r)"
    by (rule order_trans [OF Bisect.IH(1)]) (simp add: power_increasing)
  moreover have "leaves r \<le> 2 ^ max (depth l) (depth r)"
    by (rule order_trans [OF Bisect.IH(2)]) (simp add: power_increasing)
  ultimately show ?case by simp
qed

lemma aux_calls_depth:
  "depth (aux_calls f a b eps S fa fb fc bottom) \<le> nat bottom"
proof (induction f a b eps S fa fb fc bottom rule: aux_calls.induct)
  case (1 f a b eps S fa fb fc bottom)
  show ?case
  proof (cases "bottom \<le> 0")
    case True
    then show ?thesis by (subst aux_calls.simps) (simp add: Let_def)
  next
    case False
    then have n: "nat bottom = Suc (nat (bottom - 1))" by simp
    note IH = "1.IH" [OF refl refl refl refl refl refl refl refl refl]
    show ?thesis
    proof (cases "\<bar>(b - a) / 12 * (fa + 4 * f ((a + (a + b) / 2) / 2) + fc) +
        (b - a) / 12 * (fc + 4 * f (((a + b) / 2 + b) / 2) + fb) - S\<bar> \<le> 15 * eps")
      case True
      then show ?thesis by (subst aux_calls.simps) (simp add: Let_def)
    next
      case c: False
      have g: "\<not> (bottom \<le> 0 \<or> \<bar>(b - a) / 12 * (fa + 4 * f ((a + (a + b) / 2) / 2) + fc) +
        (b - a) / 12 * (fc + 4 * f (((a + b) / 2 + b) / 2) + fb) - S\<bar> \<le> 15 * eps)"
        using False c by simp
      show ?thesis
        using IH(1) [OF g] IH(2) [OF g] g
        by (subst aux_calls.simps) (simp add: Let_def n del: nat_diff_distrib)
    qed
  qed
qed



text \<open>
  C4. The adaptive integration always returns: \<open>aux\<close> is a total function whose
  recursion is the finite tree \<open>integrate_calls\<close>, the value returned is the sum of
  the estimates accepted at its leaves, no call is nested deeper than the
  configured depth budget, and there are at most \<open>2 ^ maxRecursionDepth\<close> leaf
  intervals, whatever the integrand, the interval and the accuracy. (A budget
  below zero acts as the budget zero: the first call already accepts.)
\<close>

theorem simpson_terminates_within_depth:
  "integrate s f a b = estimate (integrate_calls s f a b) \<and>
   depth (integrate_calls s f a b) \<le> nat (maxRecursionDepth s) \<and>
   leaves (integrate_calls s f a b) \<le> 2 ^ nat (maxRecursionDepth s)"
proof -
  have d: "depth (integrate_calls s f a b) \<le> nat (maxRecursionDepth s)"
    by (simp add: integrate_calls_def Let_def aux_calls_depth)
  have "leaves (integrate_calls s f a b) \<le> 2 ^ depth (integrate_calls s f a b)"
    by (rule leaves_le_depth)
  also have "\<dots> \<le> 2 ^ nat (maxRecursionDepth s)"
    using d by (simp add: power_increasing)
  finally have l: "leaves (integrate_calls s f a b) \<le> 2 ^ nat (maxRecursionDepth s)" .
  have "integrate s f a b = estimate (integrate_calls s f a b)"
    by (simp add: integrate_def integrate_calls_def Let_def aux_is_estimate)
  with d l show ?thesis by simp
qed

lemma simpson_zero_width_accepts:
  "0 \<le> accuracy s \<Longrightarrow> integrate_calls s f a a = Accept 0"
  by (subst integrate_calls_def, subst aux_calls.simps) (simp add: Let_def)


section \<open>Properties of the loops\<close>

lemma for_loop_done: "hi < i \<Longrightarrow> for_loop i hi body s = Inr s"
  by (subst for_loop.simps) simp

lemma for_loop_step:
  "i \<le> hi \<Longrightarrow> for_loop i hi body s =
     (case body i s of Inl e \<Rightarrow> Inl e | Inr s' \<Rightarrow> for_loop (i + 1) hi body s')"
  by (subst for_loop.simps) simp

lemma for_loop_preserves:
  assumes "for_loop i hi body s = Inr s'"
    and "I s"
    and step: "\<And>j t t'. I t \<Longrightarrow> body j t = Inr t' \<Longrightarrow> I t'"
  shows "I s'"
  using assms(1,2)
proof (induction "nat (hi + 1 - i)" arbitrary: i s)
  case 0
  then have "hi < i" by simp
  with "0.prems" show ?case by (simp add: for_loop_done)
next
  case (Suc k)
  then have le: "i \<le> hi" by simp
  from Suc.prems(1) obtain t where b: "body i s = Inr t"
    and r: "for_loop (i + 1) hi body t = Inr s'"
    by (auto simp: for_loop_step [OF le] split: sum.splits)
  have k: "k = nat (hi + 1 - (i + 1))" using Suc.hyps(2) by simp
  show ?case by (rule Suc.hyps(1) [OF k r step [OF Suc.prems(2) b]])
qed


section \<open>Evaluation on the example curves\<close>

lemmas eval_simps = position_def derivative_def adjustParameter_def curvePoint_def curveDerivs_def
  findSpan_def findSpan_while.simps basisFuns_def basisFuns_outer_def basisFuns_inner_def
  curvePoint_add_def dersBasisFuns_def dersBasisFuns_ndu_def
  dersBasisFuns_load_def dersBasisFuns_ders_def dersBasisFuns_factors_def
  Matrix_new_def matrix_read_def matrix_write_def sizeof_Real_def
  vec_at_def subscript_def rdiv_def for_loop.simps vec_add_assign_def vec_scale_def vec_div_def
  origin_def Let_def upt_conv_Cons

lemmas build_simps = Spline_degree_def Spline_points_def Spline_knots_def pushControlPoint_def
  computeUniformKnotVector_def push_back_loop.simps Let_def

lemma demo_curve_eq:
  "demo_curve =
     \<lparr>dimension = 3,
      controlPoints = [Vector3 0 0 0, Vector3 1 0 0, Vector3 1 1 0, Vector3 0 1 0],
      knotVector = [0, 0, 0, 0, 1, 1, 1, 1], degree = 3, uniform = True, clamped = True\<rparr>"
  by (simp add: demo_curve_def build_simps)

lemma turn_curve_eq:
  "turn_curve =
     \<lparr>dimension = 3,
      controlPoints = [Vector3 1 0 0, Vector3 1 1 0, Vector3 0 1 0, Vector3 0 0 0],
      knotVector = [0, 0, 0, 0, 1, 1, 1, 1], degree = 3, uniform = True, clamped = True\<rparr>"
  by (simp add: turn_curve_def build_simps)

lemma rational_segment_eq:
  "rational_segment =
     \<lparr>dimension = 2, controlPoints = [Vector2 1 0 2, Vector2 0 1 1],
      knotVector = [0, 0, 1, 1], degree = 1, uniform = True, clamped = True\<rparr>"
  by (simp add: rational_segment_def build_simps)

lemma position_demo_half: "position demo_curve (1 / 2) = Some (Inr (Vector3 (3 / 4) (1 / 2) 0))"
  by (simp add: demo_curve_eq Vector3_def eval_simps)

lemma derivative_demo_half: "derivative demo_curve (1 / 2) 1 = Some (Inr (Vector3 0 (3 / 2) 0))"
  by (simp add: demo_curve_eq Vector3_def eval_simps)

lemma vec_div_example: "vec_div 3 (Vector3 2 4 6) 2 = Inr (Vector3 1 2 3)"
  by (simp add: Vector3_def vec_div_def origin_def Let_def upt_conv_Cons)

section \<open>The weight of an evaluated point\<close>

lemma vec_add_assign_weight: "weight (vec_add_assign N a b) = weight a"
  by (simp add: vec_add_assign_def)

lemma position_weight:
  "position s t = Some (Inr pt) \<Longrightarrow> weight pt = 1"
  by (auto simp: position_def curvePoint_def Let_def vec_div_def origin_def
      split: option.splits sum.splits if_splits)

lemma curveDerivs_weight:
  assumes "curveDerivs N n p U P u d CK = Some (Inr CK')"
    and "\<forall>k. weight (CK k) = 1"
  shows "\<forall>k. weight (CK' k) = 1"
proof -
  from assms(1) obtain nders spn nders' where
    l: "for_loop 0 (min d p)
          (\<lambda>k CK. for_loop 0 p
             (\<lambda>j CK. case subscript P (spn - p + j) of Inl e \<Rightarrow> Inl e
                | Inr Pj \<Rightarrow> (case matrix_read nders' k j of Inl e \<Rightarrow> Inl e
                    | Inr x \<Rightarrow> Inr (CK(k := vec_add_assign N (CK k) (vec_scale N Pj x)))))
             CK) CK = Inr CK'"
    by (auto simp: curveDerivs_def Let_def split: option.splits sum.splits)
  show ?thesis
  proof (rule for_loop_preserves [OF l, where I = "\<lambda>CK. \<forall>k. weight (CK k) = 1"])
    show "\<forall>k. weight (CK k) = 1" by (rule assms(2))
  next
    fix k t t'
    assume t: "\<forall>k. weight (t k) = 1"
      and b: "for_loop 0 p
             (\<lambda>j CK. case subscript P (spn - p + j) of Inl e \<Rightarrow> Inl e
                | Inr Pj \<Rightarrow> (case matrix_read nders' k j of Inl e \<Rightarrow> Inl e
                    | Inr x \<Rightarrow> Inr (CK(k := vec_add_assign N (CK k) (vec_scale N Pj x)))))
             t = Inr t'"
    show "\<forall>k. weight (t' k) = 1"
    proof (rule for_loop_preserves [OF b, where I = "\<lambda>CK. \<forall>k. weight (CK k) = 1"])
      show "\<forall>k. weight (t k) = 1" by (rule t)
    next
      fix j and c c' :: "int \<Rightarrow> Point"
      assume c: "\<forall>k. weight (c k) = 1"
        and "(case subscript P (spn - p + j) of Inl e \<Rightarrow> Inl e
                | Inr Pj \<Rightarrow> (case matrix_read nders' k j of Inl e \<Rightarrow> Inl e
                    | Inr x \<Rightarrow> Inr (c(k := vec_add_assign N (c k) (vec_scale N Pj x))))) = Inr c'"
      then show "\<forall>k. weight (c' k) = 1"
        by (auto simp: vec_add_assign_weight split: sum.splits)
    qed
  qed
qed

lemma derivative_weight:
  "derivative s t d = Some (Inr pt) \<Longrightarrow> weight pt = 1"
proof -
  assume a: "derivative s t d = Some (Inr pt)"
  then obtain u CK where
    c: "curveDerivs (dimension s) (int (length (controlPoints s)) - 1) (degree s) (knotVector s)
          (controlPoints s) u d (\<lambda>_. origin (dimension s)) = Some (Inr CK)"
    and pt: "pt = CK d"
    by (auto simp: derivative_def Let_def split: option.splits sum.splits if_splits)
  have "\<forall>k. weight (CK k) = 1"
    by (rule curveDerivs_weight [OF c]) (simp add: origin_def)
  with pt show ?thesis by simp
qed

text \<open>
  C9. Every point that \<open>position\<close> or \<open>derivative\<close> returns has the weight 1, for
  every spline and every argument; and the sum of two vectors, the product of a
  vector with a scalar and the quotient of a vector by a scalar have the weight 1
  whatever the weights of the operands. The weights of the control points are
  read but never stored into a result.
\<close>

theorem evaluation_weight_one:
  "(position s t = Some (Inr pt) \<longrightarrow> weight pt = 1) \<and>
   (derivative s t k = Some (Inr pt') \<longrightarrow> weight pt' = 1) \<and>
   weight (vec_add N a b) = 1 \<and>
   weight (vec_scale N a r) = 1 \<and>
   (vec_div N a r = Inr q \<longrightarrow> weight q = 1)"
  by (auto simp: position_weight derivative_weight vec_add_def vec_scale_def vec_div_def
      origin_def Let_def split: if_splits)

theorem evaluation_weight_one_witness:
  "position demo_curve (1 / 2) = Some (Inr (Vector3 (3 / 4) (1 / 2) 0)) \<and>
   weight (Vector3 (3 / 4) (1 / 2) 0) = 1 \<and>
   derivative demo_curve (1 / 2) 1 = Some (Inr (Vector3 0 (3 / 2) 0)) \<and>
   weight (Vector3 0 (3 / 2) 0) = 1 \<and>
   vec_div 3 (Vector3 2 4 6) 2 = Inr (Vector3 1 2 3) \<and>
   weight (Vector3 1 2 3) = 1"
  using evaluation_weight_one [where s = demo_curve and t = "1 / 2"
      and pt = "Vector3 (3 / 4) (1 / 2) 0" and k = 1 and pt' = "Vector3 0 (3 / 2) 0"
      and N = 3 and a = "Vector3 2 4 6" and r = 2 and q = "Vector3 1 2 3"]
    position_demo_half derivative_demo_half vec_div_example
  by simp

section \<open>Rational curves\<close>

text \<open>
  C1. The claim is that \<open>position\<close> returns the homogeneous sum divided by the sum of
  the weights times the basis values. On the rational segment at \<open>t = 0\<close> the basis
  values are 1 and 0: the code returns the first control point times its weight 2,
  undivided, where the rational point is the first control point. \<open>Cw\<close> keeps the
  weight 1 of the origin through \<open>+=\<close>, so \<open>Cw / Cw.weight()\<close> divides by 1.
\<close>

theorem rational_position_not_divided:
  "position rational_segment 0 = Some (Inr (Vector2 2 0 1)) \<and>
   position_rational rational_segment 0 = Some (Inr (Vector2 1 0 1))"
  by (simp add: rational_segment_eq Vector2_def eval_simps position_rational_def
      rational_point_def upto.simps)

section \<open>The setters and the knot vector\<close>

lemma setters_keep_knots:
  "knotVector (setUniform b s) = knotVector s \<and> knotVector (setClamped b s) = knotVector s"
  by (simp add: setUniform_def setClamped_def)

text \<open>
  C8. The claim is that \<open>setClamped\<close> and \<open>setUniform\<close> regenerate the knot vector at
  once. On the curve of \<open>main.cpp\<close>, \<open>setClamped( false )\<close> leaves the clamped knots
  in place; the knots of a uniform spline that is not clamped, which
  \<open>computeUniformKnotVector\<close> would produce and the next \<open>pushControlPoint\<close> does
  produce, are different. In the same way \<open>setUniform( true )\<close> leaves the knots of
  the caller in place.
\<close>

theorem setClamped_keeps_knots:
  "knotVector (setClamped False demo_curve) = [0, 0, 0, 0, 1, 1, 1, 1] \<and>
   knotVector (computeUniformKnotVector (setClamped False demo_curve)) =
     [0, 1 / 7, 2 / 7, 3 / 7, 4 / 7, 5 / 7, 6 / 7, 1] \<and>
   knotVector (setUniform True custom_curve) = [0, 0, 0, 0, 2, 2, 2, 2] \<and>
   knotVector (computeUniformKnotVector (setUniform True custom_curve)) =
     [0, 0, 0, 0, 1, 1, 1, 1]"
  by (simp add: demo_curve_eq custom_curve_def setClamped_def setUniform_def build_simps)

section \<open>Configurations that are not valid\<close>




section \<open>The span search\<close>

lemma sdiv_2_nonneg: "0 \<le> a \<Longrightarrow> (a :: int) sdiv 2 = a div 2"
  by (simp add: signed_divide_int_def sgn_if)

lemma vec_at_in_range: "0 \<le> i \<Longrightarrow> i < int (length xs) \<Longrightarrow> vec_at xs i = Inr (xs ! nat i)"
  by (simp add: vec_at_def)


text \<open>
  The binary search returns, with a span between \<open>low\<close> and \<open>high\<close> whose knot
  interval contains \<open>u\<close>: by induction on \<open>high - low\<close>, which every iteration makes
  smaller.
\<close>

lemma findSpan_while_correct:
  fixes U :: "real list"
  assumes "sorted U"
  shows "0 \<le> low \<Longrightarrow> low < high \<Longrightarrow> high < int (length U) \<Longrightarrow>
         U ! nat low \<le> u \<Longrightarrow> u < U ! nat high \<Longrightarrow>
         \<exists>s. findSpan_while u U low high ((low + high) sdiv 2) = Some (Inr s) \<and>
             low \<le> s \<and> s < high \<and> U ! nat s \<le> u \<and> u < U ! nat (s + 1)"
proof (induction "nat (high - low)" arbitrary: low high rule: less_induct)
  case less
  define mid where "mid = (low + high) div 2"
  have m: "(low + high) sdiv 2 = mid"
    using less.prems by (simp add: mid_def sdiv_2_nonneg)
  have lm: "low \<le> mid" and mh: "mid < high"
    using less.prems by (auto simp: mid_def)
  have a: "vec_at U mid = Inr (U ! nat mid)"
    using less.prems lm mh by (simp add: vec_at_in_range)
  have b: "vec_at U (mid + 1) = Inr (U ! nat (mid + 1))"
    using less.prems lm mh by (simp add: vec_at_in_range)
  show ?case
  proof (cases "u < U ! nat mid")
    case True
    with less.prems have "low \<noteq> mid" by auto
    with lm have lt: "low < mid" by simp
    have "\<exists>s. findSpan_while u U low mid ((low + mid) sdiv 2) = Some (Inr s) \<and>
             low \<le> s \<and> s < mid \<and> U ! nat s \<le> u \<and> u < U ! nat (s + 1)"
      using less.prems lt mh True by (intro less.hyps) auto
    then show ?thesis
      using True mh by (subst findSpan_while.simps) (auto simp: m a)
  next
    case False
    show ?thesis
    proof (cases "U ! nat (mid + 1) \<le> u")
      case up: True
      have "mid + 1 \<noteq> high" using up less.prems by auto
      with mh have h: "mid + 1 < high" by simp
      then have lt: "low < mid" by (auto simp: mid_def)
      have "\<exists>s. findSpan_while u U mid high ((mid + high) sdiv 2) = Some (Inr s) \<and>
             mid \<le> s \<and> s < high \<and> U ! nat s \<le> u \<and> u < U ! nat (s + 1)"
        using less.prems lt mh False by (intro less.hyps) auto
      then show ?thesis
        using False up lm by (subst findSpan_while.simps) (auto simp: m a b)
    next
      case nup: False
      show ?thesis
        using False nup lm mh by (subst findSpan_while.simps) (auto simp: m a b)
    qed
  qed
qed

text \<open>
  C5, as stated, fails: "if \<open>u \<ge> knots[numControlPoints]\<close> it returns
  \<open>numControlPoints - 1\<close>" is not what the code does when \<open>u \<le> knots[degree]\<close> holds
  too, since that test comes first. With degree 0, two control points and the
  knots \<open>[0, 0, 0]\<close>, \<open>findSpan\<close> at \<open>u = 0\<close> returns 0 and not 1.
\<close>

theorem findSpan_lower_snap_first:
  "sorted [0, 0, 0 :: real] \<and> int (length [0, 0, 0 :: real]) = 2 + 0 + 1 \<and>
   (0 :: real) \<ge> [0, 0, 0] ! 2 \<and>
   findSpan (2 - 1) 0 0 [0, 0, 0] = Some (Inr 0) \<and>
   findSpan (2 - 1) 0 0 [0, 0, 0] \<noteq> Some (Inr (2 - 1))"
  by (simp add: findSpan_def vec_at_def)

text \<open>
  C5, amended. For sorted knots, as many as control points plus degree plus one, a
  degree that is not negative and at least \<open>degree + 1\<close> control points (\<open>n + 1\<close> is
  their number), \<open>findSpan\<close> returns a span \<open>s\<close> with \<open>degree \<le> s \<le> n\<close>; it is \<open>degree\<close>
  when \<open>u \<le> knots[degree]\<close>; otherwise it is \<open>n\<close> when \<open>u \<ge> knots[n + 1]\<close>; otherwise
  the binary search returns the span with \<open>knots[s] \<le> u < knots[s + 1]\<close>.
\<close>

theorem findSpan_range:
  fixes U :: "real list"
  assumes "sorted U"
    and "int (length U) = (n + 1) + p + 1"
    and "0 \<le> p"
    and "p + 1 \<le> n + 1"
  shows "\<exists>s. findSpan n p u U = Some (Inr s) \<and> p \<le> s \<and> s \<le> n \<and>
             (u \<le> U ! nat p \<longrightarrow> s = p) \<and>
             (U ! nat p < u \<and> U ! nat (n + 1) \<le> u \<longrightarrow> s = n) \<and>
             (U ! nat p < u \<and> u < U ! nat (n + 1) \<longrightarrow> U ! nat s \<le> u \<and> u < U ! nat (s + 1))"
proof -
  have a: "vec_at U p = Inr (U ! nat p)"
    using assms by (simp add: vec_at_in_range)
  have b: "vec_at U (n + 1) = Inr (U ! nat (n + 1))"
    using assms by (simp add: vec_at_in_range)
  show ?thesis
  proof (cases "u \<le> U ! nat p")
    case True
    then show ?thesis using assms by (simp add: findSpan_def a)
  next
    case False
    show ?thesis
    proof (cases "U ! nat (n + 1) \<le> u")
      case True
      then show ?thesis using False assms by (simp add: findSpan_def a b)
    next
      case up: False
      have "\<exists>s. findSpan_while u U p (n + 1) ((p + (n + 1)) sdiv 2) = Some (Inr s) \<and>
             p \<le> s \<and> s < n + 1 \<and> U ! nat s \<le> u \<and> u < U ! nat (s + 1)"
        using False up assms by (intro findSpan_while_correct) auto
      then show ?thesis using False up by (auto simp: findSpan_def a b)
    qed
  qed
qed

theorem findSpan_range_witness:
  "sorted seven_point_knots \<and>
   int (length seven_point_knots) = (6 + 1) + 3 + 1 \<and>
   (\<exists>s. findSpan 6 3 (3 / 5) seven_point_knots = Some (Inr s) \<and>
        3 \<le> s \<and> s \<le> 6 \<and>
        seven_point_knots ! nat s \<le> 3 / 5 \<and>
        3 / 5 < seven_point_knots ! nat (s + 1))"
proof -
  have s: "sorted seven_point_knots" by (simp add: seven_point_knots_def)
  have l: "int (length seven_point_knots) = (6 + 1) + 3 + 1"
    by (simp add: seven_point_knots_def)
  have p: "(0 :: int) \<le> 3" and n: "(3 :: int) + 1 \<le> 6 + 1" by simp_all
  have lo: "seven_point_knots ! nat 3 < 3 / 5" by (simp add: seven_point_knots_def)
  have hi: "3 / 5 < seven_point_knots ! nat (6 + 1)" by (simp add: seven_point_knots_def)
  from findSpan_range [OF s l p n, of "3 / 5"] obtain k where
    k: "findSpan 6 3 (3 / 5) seven_point_knots = Some (Inr k)" "3 \<le> k" "k \<le> 6"
    and i: "seven_point_knots ! nat 3 < 3 / 5 \<and> 3 / 5 < seven_point_knots ! nat (6 + 1) \<longrightarrow>
       seven_point_knots ! nat k \<le> 3 / 5 \<and> 3 / 5 < seven_point_knots ! nat (k + 1)"
    by blast
  from i lo hi have c: "seven_point_knots ! nat k \<le> 3 / 5"
    "3 / 5 < seven_point_knots ! nat (k + 1)" by simp_all
  show ?thesis
    using s l k c by (intro conjI exI [of _ k])
qed

section \<open>The periodic parameter adjustment\<close>










section \<open>Interpolation of the end points\<close>












lemma push_back_loop_eq:
  "push_back_loop g bound i kv = (max i bound, kv @ map g [i..bound - 1])"
proof (induction g bound i kv rule: push_back_loop.induct)
  case (1 g bound i kv)
  show ?case
  proof (cases "i < bound")
    case True
    have "[i..bound - 1] = i # [i + 1..bound - 1]"
      using True by (intro upto_rec1) simp
    with "1.IH" [OF True] True show ?thesis
      by (subst push_back_loop.simps) (simp add: max_def)
  next
    case False
    then show ?thesis by (subst push_back_loop.simps) (simp add: max_def)
  qed
qed

lemma clamped_knot_mono:
  assumes "d + 1 \<le> np" and "a \<le> b"
  shows "clamped_knot d np a \<le> clamped_knot d np b"
proof -
  have pos: "0 < (of_int (np - d) :: real)" using assms(1) by simp
  have "(of_int (a - d) :: real) \<le> of_int (b - d)" using assms(2) by simp
  then have q: "(of_int (a - d) :: real) / of_int (np - d) \<le> of_int (b - d) / of_int (np - d)"
    using pos by (simp add: divide_right_mono)
  have le1: "(of_int (a - d) :: real) / of_int (np - d) \<le> 1" if "a < np"
    using that pos by (simp add: field_simps)
  have ge0: "0 \<le> (of_int (b - d) :: real) / of_int (np - d)" if "d < b"
    using that pos by simp
  show ?thesis
    using assms(2) q le1 ge0 by (auto simp: clamped_knot_def)
qed

lemma computeUniformKnotVector_clamped_eq:
  assumes "uniform s" and "clamped s" and "0 \<le> degree s"
    and "degree s + 1 \<le> int (length (controlPoints s))"
  shows "computeUniformKnotVector s =
     s\<lparr>knotVector := map (clamped_knot (degree s) (int (length (controlPoints s))))
        [0..int (length (controlPoints s)) + degree s]\<rparr>"
proof -
  define d where "d = degree s"
  define np where "np = int (length (controlPoints s))"
  have d0: "0 \<le> d" and dn: "d + 1 \<le> np" using assms(3,4) by (simp_all add: d_def np_def)
  have split: "[0..np + d] = [0..d] @ [d + 1..np - 1] @ [np..np + d]"
  proof -
    have "[0..np + d] = [0..d] @ [d + 1..np + d]" using d0 dn by (intro upto_split2) auto
    also have "[d + 1..np + d] = [d + 1..np - 1] @ [np..np + d]"
      using d0 dn upto_split2 [of "d + 1" "np - 1" "np + d"]
      by (cases "d + 1 \<le> np - 1") auto
    finally show ?thesis .
  qed
  have m1: "map (\<lambda>i. 0) [0..d] = map (clamped_knot d np) [0..d]"
    by (rule map_cong) (auto simp: clamped_knot_def)
  have m2: "map (\<lambda>i. (real_of_int i - real_of_int d) / (real_of_int np - real_of_int d))
        [d + 1..np - 1] =
      map (clamped_knot d np) [d + 1..np - 1]"
    by (rule map_cong) (auto simp: clamped_knot_def)
  have m3: "map (\<lambda>i. 1) [np..np + d] = map (clamped_knot d np) [np..np + d]"
    using dn by (intro map_cong) (auto simp: clamped_knot_def)
  have mx: "max (d + 1) np = np" using dn by simp
  show ?thesis
    using assms(1,2) d0 dn
    by (simp add: computeUniformKnotVector_def Let_def push_back_loop_eq
        d_def [symmetric] np_def [symmetric] mx split m1 m2 m3)
qed

lemma computeUniformKnotVector_clamped:
  assumes "uniform s" and "clamped s" and "0 \<le> degree s"
    and "degree s + 1 \<le> int (length (controlPoints s))"
  shows "clamped_knots (computeUniformKnotVector s) \<and>
         sorted (knotVector (computeUniformKnotVector s)) \<and>
         int (length (knotVector (computeUniformKnotVector s))) =
           int (length (controlPoints s)) + degree s + 1"
proof -
  define d where "d = degree s"
  define np where "np = int (length (controlPoints s))"
  define U where "U = map (clamped_knot d np) [0..np + d]"
  have d0: "0 \<le> d" and dn: "d + 1 \<le> np" using assms(3,4) by (simp_all add: d_def np_def)
  have eq: "computeUniformKnotVector s = s\<lparr>knotVector := U\<rparr>"
    using computeUniformKnotVector_clamped_eq [OF assms] by (simp add: U_def d_def np_def)
  have len: "int (length U) = np + d + 1" using d0 dn by (simp add: U_def)
  have nth: "U ! nat i = clamped_knot d np i" if "0 \<le> i" "i \<le> np + d" for i
    using that by (simp add: U_def)
  have ne: "U \<noteq> []" using len d0 dn by auto
  have hd: "hd U = 0" using ne nth [of 0] d0 dn by (simp add: hd_conv_nth clamped_knot_def)
  have ln: "length U - Suc 0 = nat (np + d)" using len by simp
  have last: "last U = 1"
    using ne nth [of "np + d"] d0 dn by (simp add: last_conv_nth ln clamped_knot_def)
  have srt: "sorted U"
    unfolding U_def
    by (rule sorted_map_mono) (auto simp: mono_on_def intro: clamped_knot_mono [OF dn])
  have lo: "U ! nat i = hd U" if "i \<in> {0..d}" for i
    using that nth [of i] dn hd by (simp add: clamped_knot_def)
  have hi: "U ! nat i = last U" if "i \<in> {np - 1 + 1..np - 1 + d + 1}" for i
    using that nth [of i] d0 dn last by (simp add: clamped_knot_def)
  have lo_strict: "hd U < U ! nat (d + 1)"
    using nth [of "d + 1"] d0 dn hd by (simp add: clamped_knot_def)
  have hi_strict: "U ! nat (np - 1) < last U"
    using nth [of "np - 1"] d0 dn last by (simp add: clamped_knot_def field_simps)
  have "clamped_knots (s\<lparr>knotVector := U\<rparr>)"
    using lo hi lo_strict hi_strict
    by (simp add: clamped_knots_def Let_def d_def [symmetric] np_def [symmetric])
  with srt len show ?thesis by (simp add: eq d_def np_def)
qed

lemma Spline_points_clamped:
  assumes "0 \<le> deg" and "deg + 1 \<le> int (length points)"
    and "\<forall>P \<in> set points. weight P \<noteq> 0 \<and> wf_Vector N P"
  shows "valid_configuration (Spline_points N points deg) \<and>
         clamped (Spline_points N points deg) \<and>
         clamped_knots (Spline_points N points deg)"
proof -
  define s where "s = \<lparr>dimension = N, controlPoints = points, knotVector = [], degree = deg,
    uniform = True, clamped = True\<rparr>"
  have u: "uniform s" and c: "clamped s" and d: "0 \<le> degree s"
    and n: "degree s + 1 \<le> int (length (controlPoints s))"
    using assms(1,2) by (simp_all add: s_def)
  have eq: "Spline_points N points deg =
      s\<lparr>knotVector := map (clamped_knot (degree s) (int (length (controlPoints s))))
        [0..int (length (controlPoints s)) + degree s]\<rparr>"
    using computeUniformKnotVector_clamped_eq [OF u c d n] by (simp add: Spline_points_def s_def)
  have k: "clamped_knots (Spline_points N points deg)"
    and srt: "sorted (knotVector (Spline_points N points deg))"
    and len: "int (length (knotVector (Spline_points N points deg))) =
      int (length (controlPoints s)) + degree s + 1"
    using computeUniformKnotVector_clamped [OF u c d n] by (simp_all add: Spline_points_def s_def)
  have f: "controlPoints (Spline_points N points deg) = points"
    "degree (Spline_points N points deg) = deg"
    "dimension (Spline_points N points deg) = N"
    "clamped (Spline_points N points deg)"
    by (simp_all add: eq) (simp_all add: s_def)
  show ?thesis
    using k srt len f assms by (simp add: valid_configuration_def s_def)
qed



section \<open>Derivatives\<close>

lemma derivative_turn_half_2:
  "derivative turn_curve (1 / 2) 2 = Some (Inr (Vector3 (3 / 2) (- 6) 0))"
  by (simp add: turn_curve_eq Vector3_def eval_simps)

lemma adjust_turn: "0 < t \<Longrightarrow> t < 1 \<Longrightarrow> adjustParameter turn_curve t = Some (Inr t)"
  by (simp add: turn_curve_eq adjustParameter_def)

lemma findSpan_turn:
  "0 < t \<Longrightarrow> t < 1 \<Longrightarrow> findSpan 3 3 t [0, 0, 0, 0, 1, 1, 1, 1] = Some (Inr 3)"
  by (subst findSpan_def, subst findSpan_while.simps) (simp add: vec_at_def)

lemma position_turn:
  assumes "0 < t" and "t < 1"
  shows "position turn_curve t = Some (Inr (Vector3 (turn_x t) (turn_y t) 0))"
proof -
  have p: "position turn_curve t =
      curvePoint 3 3 3 [0, 0, 0, 0, 1, 1, 1, 1]
        [Vector3 1 0 0, Vector3 1 1 0, Vector3 0 1 0, Vector3 0 0 0] t"
    using adjust_turn [OF assms] by (simp add: position_def turn_curve_eq)
  show ?thesis
    unfolding p curvePoint_def findSpan_turn [OF assms]
    using assms
    apply (simp add: basisFuns_def basisFuns_outer_def basisFuns_inner_def for_loop.simps
        vec_at_def rdiv_def Let_def curvePoint_add_def subscript_def vec_add_assign_def
        vec_scale_def vec_div_def origin_def Vector3_def upt_conv_Cons turn_x_def turn_y_def)
    apply (simp add: power2_eq_square power3_eq_cube algebra_simps)
    done
qed

lemma position_turn_near_half:
  "eventually (\<lambda>t. position turn_curve t = Some (Inr (Vector3 (turn_x t) (turn_y t) 0)))
     (nhds (1 / 2))"
proof -
  have "open {0 <..< 1 :: real}" by simp
  moreover have "(1 / 2 :: real) \<in> {0 <..< 1}" by simp
  moreover have "\<forall>t \<in> {0 <..< 1}.
      position turn_curve t = Some (Inr (Vector3 (turn_x t) (turn_y t) 0))"
    by (simp add: position_turn)
  ultimately show ?thesis unfolding eventually_nhds by blast
qed

lemma turn_x_deriv: "(turn_x has_real_derivative turn_dx t) (at t)"
  unfolding turn_x_def [abs_def] turn_dx_def
  by (auto intro!: derivative_eq_intros simp: power2_eq_square algebra_simps)

lemma turn_dx_deriv: "(turn_dx has_real_derivative turn_ddx t) (at t)"
  unfolding turn_dx_def [abs_def] turn_ddx_def
  by (auto intro!: derivative_eq_intros simp: power2_eq_square algebra_simps)

lemma turn_y_deriv: "(turn_y has_real_derivative turn_dy t) (at t)"
  unfolding turn_y_def [abs_def] turn_dy_def
  by (auto intro!: derivative_eq_intros simp: power2_eq_square algebra_simps)

lemma turn_dy_deriv: "(turn_dy has_real_derivative turn_ddy t) (at t)"
  unfolding turn_dy_def [abs_def] turn_ddy_def
  by (auto intro!: derivative_eq_intros simp: power2_eq_square algebra_simps)

text \<open>
  C3. The claim is that \<open>derivative\<close> of order \<open>k\<close> with \<open>1 \<le> k \<le> degree\<close> is the \<open>k\<close>-th
  derivative of the position on a curve with unit weights. On the cubic
  \<open>turn_curve\<close>, near \<open>t = 1 / 2\<close>, the position is the polynomial curve
  \<open>(turn_x t, turn_y t, 0)\<close>, whose second derivative at \<open>1 / 2\<close> is \<open>(0, - 6, 0)\<close>; the
  code returns \<open>(3 / 2, - 6, 0)\<close>. The matrix of \<open>curveDerivs\<close> has 3 rows and 4
  columns and \<open>operator[]\<close> steps by the number of rows, so \<open>ders[ 1 ][ 3 ]\<close> and
  \<open>ders[ 2 ][ 0 ]\<close> are one cell: the coefficient of the first control point is
  overwritten, then multiplied by both factors 3 and 6.
\<close>

theorem second_derivative_rows_overlap:
  "derivative turn_curve (1 / 2) 2 = Some (Inr (Vector3 (3 / 2) (- 6) 0)) \<and>
   eventually (\<lambda>t. position turn_curve t = Some (Inr (Vector3 (turn_x t) (turn_y t) 0)))
     (nhds (1 / 2)) \<and>
   (\<forall>t. (turn_x has_real_derivative turn_dx t) (at t)) \<and>
   (\<forall>t. (turn_dx has_real_derivative turn_ddx t) (at t)) \<and>
   (\<forall>t. (turn_y has_real_derivative turn_dy t) (at t)) \<and>
   (\<forall>t. (turn_dy has_real_derivative turn_ddy t) (at t)) \<and>
   turn_ddx (1 / 2) = 0 \<and> turn_ddy (1 / 2) = - 6"
  using derivative_turn_half_2 position_turn_near_half turn_x_deriv turn_dx_deriv
    turn_y_deriv turn_dy_deriv
  by (simp add: turn_ddx_def turn_ddy_def)

end
